theory Spec2Isabelle
  imports Main "HOL-Library.Word" "HOL-Library.List_Lexorder"
begin

section \<open>The book catalogue client (src/src/App.jsx)\<close>

subsection \<open>JavaScript strings\<close>

text \<open>
  A JavaScript string is a sequence of UTF-16 code units. The comparison used by the
  default \<^verbatim>\<open>Array.prototype.sort\<close> is the code-unit-wise lexicographic one (a proper
  prefix is smaller), which is the list order of \<^theory_text>\<open>HOL-Library.List_Lexorder\<close>
  over the unsigned order of 16-bit words. \<open>js\<close> writes an ASCII literal of the source.
\<close>

type_synonym code_unit = "16 word"
type_synonym jsstring = "code_unit list"

definition js :: "string \<Rightarrow> jsstring" where
  "js s = map of_char s"

text \<open>
  \<^verbatim>\<open>String.prototype.trim\<close> strips WhiteSpace and LineTerminator code points from both
  ends: TAB, LF, VT, FF, CR, SPACE, NBSP, U+1680, U+2000..U+200A, U+2028, U+2029, U+202F,
  U+205F, U+3000 and U+FEFF.
\<close>

definition is_white :: "code_unit \<Rightarrow> bool" where
  "is_white c = (c \<in> set [0x9, 0xA, 0xB, 0xC, 0xD, 0x20, 0xA0, 0x1680,
      0x2000, 0x2001, 0x2002, 0x2003, 0x2004, 0x2005, 0x2006, 0x2007, 0x2008, 0x2009, 0x200A,
      0x2028, 0x2029, 0x202F, 0x205F, 0x3000, 0xFEFF])"

definition trim :: "jsstring \<Rightarrow> jsstring" where
  "trim s = rev (dropWhile is_white (rev (dropWhile is_white s)))"

text \<open>\<^verbatim>\<open>a || b\<close> on strings: the empty string is the only falsy string.\<close>

definition or_else :: "jsstring \<Rightarrow> jsstring \<Rightarrow> jsstring" where
  "or_else a b = (if a \<noteq> [] then a else b)"

text \<open>\<^verbatim>\<open>Boolean(s)\<close> on a string.\<close>

definition Boolean :: "jsstring \<Rightarrow> bool" where
  "Boolean s = (s \<noteq> [])"

text \<open>
  \<^verbatim>\<open>new Set(iterable)\<close> adds the elements in order; an element already present is not
  added again, and iteration (\<^verbatim>\<open>Array.from\<close>) follows insertion order.
\<close>

definition Set_add :: "jsstring list \<Rightarrow> jsstring \<Rightarrow> jsstring list" where
  "Set_add s x = (if x \<in> set s then s else s @ [x])"

definition new_Set :: "jsstring list \<Rightarrow> jsstring list" where
  "new_Set xs = foldl Set_add [] xs"

definition Array_from :: "jsstring list \<Rightarrow> jsstring list" where
  "Array_from s = s"

subsection \<open>Data model\<close>

text \<open>
  \<open>emptyForm\<close> (lines 6-14) fixes the fields of the form draft; a book of the list is
  the same fields together with the backend's identifier. The identifier is a JSON
  number or string, compared with \<^verbatim>\<open>===\<close>.
\<close>

datatype ident = IdNum int | IdStr jsstring

record book_form =
  title :: jsstring
  author :: jsstring
  category :: jsstring
  description :: jsstring
  text_summary :: jsstring
  cover_image_url :: jsstring
  audio_summary_url :: jsstring

record book = book_form +
  book_id :: ident

definition emptyForm :: book_form where
  "emptyForm = \<lparr>title = [], author = [], category = [], description = [],
     text_summary = [], cover_image_url = [], audio_summary_url = []\<rparr>"

subsection \<open>The derived category options (lines 74-77)\<close>

definition categories :: "book list \<Rightarrow> jsstring list" where
  "categories bs =
     sort (Array_from (new_Set (filter Boolean (map (\<lambda>b. trim (or_else (category b) [])) bs))))"

text \<open>
  The specification's formula, word for word:
  \<^verbatim>\<open>sort(dedupe(trim(b.category) for b in bookList if trim(b.category) != ""))\<close>.
\<close>

definition spec_categories :: "book list \<Rightarrow> jsstring list" where
  "spec_categories bs =
     sort (remdups (map (\<lambda>b. trim (category b)) (filter (\<lambda>b. trim (category b) \<noteq> []) bs)))"

subsection \<open>Session state (lines 16-23)\<close>

record state =
  form :: book_form
  loading :: bool
  submitting :: bool
  error :: jsstring
  books :: "book list"
  query :: jsstring
  categoryFilter :: jsstring
  expandedId :: "ident option"

definition initial_state :: state where
  "initial_state = \<lparr>form = emptyForm, loading = False, submitting = False, error = [],
     books = [], query = [], categoryFilter = [], expandedId = None\<rparr>"

subsection \<open>The network\<close>

text \<open>
  The three calls of \<^verbatim>\<open>fetch\<close>: the list request with the search parameters that were
  set on the \<^verbatim>\<open>URLSearchParams\<close> (in order), the create request with the draft as
  its JSON body, and the delete request for an identifier.
\<close>

datatype request =
  GetBooks "(jsstring \<times> jsstring) list"
| PostBook book_form
| DeleteBook ident

text \<open>
  What the backend answers is an input of the model. The promise of \<^verbatim>\<open>fetch\<close> either
  rejects with an exception (of the given \<^verbatim>\<open>message\<close>) or resolves with a response,
  of which the code reads \<^verbatim>\<open>ok\<close>, \<^verbatim>\<open>text()\<close> and \<^verbatim>\<open>json()\<close>; the two body
  readers may reject too (\<open>Inl\<close> the exception's message).
\<close>

record response =
  res_ok :: bool
  res_text :: "jsstring + jsstring"
  res_json :: "jsstring + book list"

datatype fetched = Rejects jsstring | Resolves response

subsection \<open>Effects and continuations\<close>

text \<open>
  A handler is an async function: it runs up to its next \<^verbatim>\<open>await\<close> of a network
  answer, and is resumed with that answer later; other events are handled in between.
  Each piece is modelled by the list of effects it performs, in program order (the calls
  of the state setters and of \<^verbatim>\<open>fetch\<close>), and by the continuation it leaves behind.
  A continuation holds what the closure captured and still reads after the
  \<^verbatim>\<open>await\<close>: \<open>fetchBooks\<close> reads \<open>query\<close> and \<open>categoryFilter\<close> of the render in
  which the running handler was created.
\<close>

datatype effect =
  SetForm book_form
| SetLoading bool
| SetSubmitting bool
| SetError jsstring
| SetBooks "book list"
| SetQuery jsstring
| SetCategoryFilter jsstring
| SetExpandedId "ident option"
| Fetch request

datatype caller = TopLevel | InSubmit | InDelete

datatype cont =
  AwaitList caller
| AwaitCreate jsstring jsstring
| AwaitDelete jsstring jsstring

type_synonym outcome = "effect list \<times> cont option"

subsection \<open>fetchBooks (lines 25-40)\<close>

definition params_of :: "jsstring \<Rightarrow> jsstring \<Rightarrow> (jsstring \<times> jsstring) list" where
  "params_of q c =
     (if q \<noteq> [] then [(js ''q'', q)] else []) @
     (if c \<noteq> [] then [(js ''category'', c)] else [])"

definition fetchBooks :: "jsstring \<Rightarrow> jsstring \<Rightarrow> caller \<Rightarrow> outcome" where
  "fetchBooks q c who =
     ([SetLoading True, Fetch (GetBooks (params_of q c))], Some (AwaitList who))"

text \<open>
  After \<open>fetchBooks\<close> has returned, \<open>handleSubmit\<close> still runs its \<^verbatim>\<open>finally\<close>
  block (line 70); the other callers do nothing more.
\<close>

fun after_fetchBooks :: "caller \<Rightarrow> effect list" where
  "after_fetchBooks InSubmit = [SetSubmitting False]"
| "after_fetchBooks TopLevel = []"
| "after_fetchBooks InDelete = []"

definition fetchBooks_resume :: "caller \<Rightarrow> fetched \<Rightarrow> outcome" where
  "fetchBooks_resume who r =
     ((case r of
         Rejects m \<Rightarrow> [SetError m]
       | Resolves res \<Rightarrow>
           if \<not> res_ok res then [SetError (js ''Failed to load books'')]
           else (case res_json res of
                   Inl m \<Rightarrow> [SetError m]
                 | Inr data \<Rightarrow> [SetBooks data]))
      @ [SetLoading False] @ after_fetchBooks who, None)"

subsection \<open>handleSubmit (lines 47-72)\<close>

definition handleSubmit :: "book_form \<Rightarrow> jsstring \<Rightarrow> jsstring \<Rightarrow> outcome" where
  "handleSubmit f q c =
     (if title f = [] \<or> author f = [] \<or> category f = []
      then ([SetError [], SetSubmitting True,
             SetError (js ''Please fill title, author and category''),
             SetSubmitting False], None)
      else ([SetError [], SetSubmitting True, Fetch (PostBook f)], Some (AwaitCreate q c)))"

definition handleSubmit_resume :: "jsstring \<Rightarrow> jsstring \<Rightarrow> fetched \<Rightarrow> outcome" where
  "handleSubmit_resume q c r =
     (case r of
        Rejects m \<Rightarrow> ([SetError m, SetSubmitting False], None)
      | Resolves res \<Rightarrow>
          if \<not> res_ok res
          then (case res_text res of
                  Inl m \<Rightarrow> ([SetError m, SetSubmitting False], None)
                | Inr msg \<Rightarrow>
                    ([SetError (or_else msg (js ''Failed to add book'')),
                      SetSubmitting False], None))
          else (SetForm emptyForm # fst (fetchBooks q c InSubmit),
                snd (fetchBooks q c InSubmit)))"

subsection \<open>handleDelete (lines 79-87)\<close>

text \<open>The answer to \<^verbatim>\<open>confirm('Delete this book?')\<close> is the first argument.\<close>

definition handleDelete :: "bool \<Rightarrow> ident \<Rightarrow> jsstring \<Rightarrow> jsstring \<Rightarrow> outcome" where
  "handleDelete confirmed i q c =
     (if \<not> confirmed then ([], None)
      else ([Fetch (DeleteBook i)], Some (AwaitDelete q c)))"

definition handleDelete_resume :: "jsstring \<Rightarrow> jsstring \<Rightarrow> fetched \<Rightarrow> outcome" where
  "handleDelete_resume q c r =
     (case r of
        Rejects m \<Rightarrow> ([SetError (js ''Delete failed'')], None)
      | Resolves res \<Rightarrow> fetchBooks q c InDelete)"

subsection \<open>The inline handlers of the view (lines 113-190)\<close>

datatype field =
  Title | Author | Category | CoverImageUrl | AudioSummaryUrl | Description | TextSummary

fun set_field :: "field \<Rightarrow> jsstring \<Rightarrow> book_form \<Rightarrow> book_form" where
  "set_field Title v f = f\<lparr>title := v\<rparr>"
| "set_field Author v f = f\<lparr>author := v\<rparr>"
| "set_field Category v f = f\<lparr>category := v\<rparr>"
| "set_field CoverImageUrl v f = f\<lparr>cover_image_url := v\<rparr>"
| "set_field AudioSummaryUrl v f = f\<lparr>audio_summary_url := v\<rparr>"
| "set_field Description v f = f\<lparr>description := v\<rparr>"
| "set_field TextSummary v f = f\<lparr>text_summary := v\<rparr>"

datatype edit =
  Input field jsstring
| Clear
| TypeQuery jsstring
| SelectCategory jsstring
| Toggle ident

fun edit_effects :: "state \<Rightarrow> edit \<Rightarrow> effect list" where
  "edit_effects st (Input fld v) = [SetForm (set_field fld v (form st))]"
| "edit_effects st Clear = [SetForm emptyForm]"
| "edit_effects st (TypeQuery v) = [SetQuery v]"
| "edit_effects st (SelectCategory v) = [SetCategoryFilter v]"
| "edit_effects st (Toggle i) =
     [SetExpandedId (if expandedId st = Some i then None else Some i)]"

text \<open>Line 204: the summary of a book is shown when \<^verbatim>\<open>expandedId === b.id\<close>.\<close>

definition is_expanded :: "state \<Rightarrow> book \<Rightarrow> bool" where
  "is_expanded st b = (expandedId st = Some (book_id b))"

subsection \<open>The session as a transition system\<close>

text \<open>
  A configuration is the state held by React, the continuations of the handlers that
  wait for the network, and the requests sent so far.
\<close>

record config =
  store :: state
  pending :: "cont list"
  sent :: "request list"

fun perform :: "effect \<Rightarrow> config \<Rightarrow> config" where
  "perform (SetForm f) c = c\<lparr>store := (store c)\<lparr>form := f\<rparr>\<rparr>"
| "perform (SetLoading b) c = c\<lparr>store := (store c)\<lparr>loading := b\<rparr>\<rparr>"
| "perform (SetSubmitting b) c = c\<lparr>store := (store c)\<lparr>submitting := b\<rparr>\<rparr>"
| "perform (SetError m) c = c\<lparr>store := (store c)\<lparr>error := m\<rparr>\<rparr>"
| "perform (SetBooks bs) c = c\<lparr>store := (store c)\<lparr>books := bs\<rparr>\<rparr>"
| "perform (SetQuery v) c = c\<lparr>store := (store c)\<lparr>query := v\<rparr>\<rparr>"
| "perform (SetCategoryFilter v) c = c\<lparr>store := (store c)\<lparr>categoryFilter := v\<rparr>\<rparr>"
| "perform (SetExpandedId i) c = c\<lparr>store := (store c)\<lparr>expandedId := i\<rparr>\<rparr>"
| "perform (Fetch r) c = c\<lparr>sent := sent c @ [r]\<rparr>"

fun effects :: "effect list \<Rightarrow> config \<Rightarrow> config" where
  "effects [] c = c"
| "effects (e # es) c = effects es (perform e c)"

fun suspend :: "cont option \<Rightarrow> config \<Rightarrow> config" where
  "suspend None c = c"
| "suspend (Some k) c = c\<lparr>pending := pending c @ [k]\<rparr>"

definition exec :: "outcome \<Rightarrow> config \<Rightarrow> config" where
  "exec oc c = suspend (snd oc) (effects (fst oc) c)"

fun resume :: "cont \<Rightarrow> fetched \<Rightarrow> outcome" where
  "resume (AwaitList who) r = fetchBooks_resume who r"
| "resume (AwaitCreate q c) r = handleSubmit_resume q c r"
| "resume (AwaitDelete q c) r = handleDelete_resume q c r"

text \<open>
  The events: an edit of the view, the Search button (or Enter in the search field), the
  submission of the form, the Delete button with the answer given to the confirmation,
  and the answer of the network to the \<open>k\<close>-th waiting handler. A handler started by an
  event reads the state of the current render.
\<close>

datatype event =
  Edit edit
| Search
| Submit
| Delete ident bool
| Reply nat fetched

fun step :: "event \<Rightarrow> config \<Rightarrow> config option" where
  "step (Edit e) c = Some (exec (edit_effects (store c) e, None) c)"
| "step Search c =
     Some (exec (fetchBooks (query (store c)) (categoryFilter (store c)) TopLevel) c)"
| "step Submit c =
     Some (exec (handleSubmit (form (store c)) (query (store c)) (categoryFilter (store c))) c)"
| "step (Delete i confirmed) c =
     Some (exec (handleDelete confirmed i (query (store c)) (categoryFilter (store c))) c)"
| "step (Reply k r) c =
     (if k < length (pending c)
      then Some (exec (resume (pending c ! k) r)
                   (c\<lparr>pending := take k (pending c) @ drop (Suc k) (pending c)\<rparr>))
      else None)"

fun run :: "event list \<Rightarrow> config \<Rightarrow> config option" where
  "run [] c = Some c"
| "run (e # es) c = (case step e c of None \<Rightarrow> None | Some c' \<Rightarrow> run es c')"

text \<open>Lines 42-45: after the first render the effect hook calls \<open>fetchBooks\<close> once.\<close>

definition mount :: config where
  "mount = exec (fetchBooks (query initial_state) (categoryFilter initial_state) TopLevel)
             \<lparr>store = initial_state, pending = [], sent = []\<rparr>"

text \<open>
  One operation followed on its own: the effects of a handler from its start to its end,
  when the network answers its requests with the given answers, in order. The result is
  \<open>None\<close> when the handler still waits after the last answer.
\<close>

fun complete :: "outcome \<Rightarrow> fetched list \<Rightarrow> effect list option" where
  "complete (es, None) rs = Some es"
| "complete (es, Some k) [] = None"
| "complete (es, Some k) (r # rs) =
     (case complete (resume k r) rs of None \<Rightarrow> None | Some es' \<Rightarrow> Some (es @ es'))"

text \<open>Whether the \<^verbatim>\<open>try\<close> block of the waiting handler throws on an answer.\<close>

fun throws :: "cont \<Rightarrow> fetched \<Rightarrow> bool" where
  "throws k (Rejects m) = True"
| "throws (AwaitList who) (Resolves res) = (\<not> res_ok res \<or> isl (res_json res))"
| "throws (AwaitCreate q c) (Resolves res) = (\<not> res_ok res)"
| "throws (AwaitDelete q c) (Resolves res) = False"

text \<open>
  The entries of the rendered list that show their summary (lines 175 and 204).
\<close>

definition expanded_entries :: "config \<Rightarrow> book list" where
  "expanded_entries c = filter (is_expanded (store c)) (books (store c))"

text \<open>
  The data model's condition on the backend: identifiers are unique. An event meets it
  when it is not a parsed answer, or when the books of the parsed answer have pairwise
  different identifiers (as \<^verbatim>\<open>===\<close> compares them).
\<close>

fun unique_ids :: "event \<Rightarrow> bool" where
  "unique_ids (Reply k (Resolves res)) =
     (case res_json res of Inl m \<Rightarrow> True | Inr data \<Rightarrow> distinct (map book_id data))"
| "unique_ids (Reply k (Rejects m)) = True"
| "unique_ids (Edit e) = True"
| "unique_ids Search = True"
| "unique_ids Submit = True"
| "unique_ids (Delete i confirmed) = True"

subsection \<open>Sample data\<close>

definition dune_form :: book_form where
  "dune_form = \<lparr>title = js ''Dune'', author = js ''Herbert'', category = js ''Sci-Fi'',
     description = [], text_summary = [], cover_image_url = [], audio_summary_url = []\<rparr>"

definition dune :: book where
  "dune = \<lparr>title = js ''Dune'', author = js ''Herbert'', category = js ''Sci-Fi'',
     description = [], text_summary = [], cover_image_url = [], audio_summary_url = [],
     book_id = IdNum 1\<rparr>"

definition response_of :: "bool \<Rightarrow> string \<Rightarrow> book list \<Rightarrow> response" where
  "response_of ok_flag body data =
     \<lparr>res_ok = ok_flag, res_text = Inr (js body), res_json = Inr data\<rparr>"

definition bad_json :: response where
  "bad_json = \<lparr>res_ok = True, res_text = Inr [],
     res_json = Inl (js ''Unexpected end of JSON input'')\<rparr>"

definition listed :: config where
  "listed = \<lparr>store = initial_state\<lparr>books := [dune], error := js ''Delete failed''\<rparr>,
     pending = [], sent = [GetBooks []]\<rparr>"

definition cat_book :: "string \<Rightarrow> book" where
  "cat_book c = \<lparr>title = [], author = [], category = js c, description = [],
     text_summary = [], cover_image_url = [], audio_summary_url = [], book_id = IdNum 0\<rparr>"

definition hobbit :: book where
  "hobbit = \<lparr>title = js ''The Hobbit'', author = js ''Tolkien'', category = js ''Fantasy'',
     description = [], text_summary = [], cover_image_url = [], audio_summary_url = [],
     book_id = IdNum 2\<rparr>"



text \<open>
  A session in which a confirmed delete cannot reach the backend: the first list loads
  with one book, its Delete button is pressed and confirmed, and \<^verbatim>\<open>fetch\<close> rejects.
\<close>

definition delete_rejected_events :: "event list" where
  "delete_rejected_events =
     [Reply 0 (Resolves (response_of True [] [dune])),
      Delete (IdNum 1) True,
      Reply 0 (Rejects (js ''Failed to fetch''))]"

definition delete_rejected_result :: config where
  "delete_rejected_result =
     \<lparr>store = initial_state\<lparr>books := [dune], error := js ''Delete failed''\<rparr>,
      pending = [],
      sent = [GetBooks [], DeleteBook (IdNum 1)]\<rparr>"

text \<open>The same session when the backend answers the delete request with an error status.\<close>

definition delete_refused_events :: "event list" where
  "delete_refused_events =
     [Reply 0 (Resolves (response_of True [] [dune])),
      Delete (IdNum 1) True,
      Reply 0 (Resolves (response_of False ''not found'' []))]"

definition delete_refused_result :: config where
  "delete_refused_result =
     \<lparr>store = initial_state\<lparr>books := [dune], loading := True\<rparr>,
      pending = [AwaitList InDelete],
      sent = [GetBooks [], DeleteBook (IdNum 1), GetBooks []]\<rparr>"

text \<open>
  A session in which the backend answers two books under one identifier, and the Read
  button of one of them is pressed.
\<close>

definition twin :: book where
  "twin = \<lparr>title = js ''The Hobbit'', author = js ''Tolkien'', category = js ''Fantasy'',
     description = [], text_summary = [], cover_image_url = [], audio_summary_url = [],
     book_id = IdNum 1\<rparr>"

definition twins_events :: "event list" where
  "twins_events =
     [Reply 0 (Resolves (response_of True [] [dune, twin])),
      Edit (Toggle (IdNum 1))]"

definition twins_result :: config where
  "twins_result =
     \<lparr>store = initial_state\<lparr>books := [dune, twin], expandedId := Some (IdNum 1)\<rparr>,
      pending = [],
      sent = [GetBooks []]\<rparr>"

text \<open>The same session when the two books have their own identifiers.\<close>

definition pair_events :: "event list" where
  "pair_events =
     [Reply 0 (Resolves (response_of True [] [dune, hobbit])),
      Edit (Toggle (IdNum 1))]"

definition pair_result :: config where
  "pair_result =
     \<lparr>store = initial_state\<lparr>books := [dune, hobbit], expandedId := Some (IdNum 1)\<rparr>,
      pending = [],
      sent = [GetBooks []]\<rparr>"

section \<open>Properties\<close>

subsection \<open>Strings and sets\<close>

lemma trim_empty: "trim [] = []"
  by (simp add: trim_def)

lemma or_else_empty: "or_else a [] = a"
  by (simp add: or_else_def)

lemma set_foldl_Set_add: "set (foldl Set_add acc xs) = set acc \<union> set xs"
  by (induction xs arbitrary: acc) (auto simp: Set_add_def)

lemma distinct_foldl_Set_add: "distinct acc \<Longrightarrow> distinct (foldl Set_add acc xs)"
  by (induction xs arbitrary: acc) (auto simp: Set_add_def)

lemma set_new_Set: "set (new_Set xs) = set xs"
  by (simp add: new_Set_def set_foldl_Set_add)

lemma distinct_new_Set: "distinct (new_Set xs)"
  by (simp add: new_Set_def distinct_foldl_Set_add)

lemma sort_distinct_cong:
  fixes xs ys :: "jsstring list"
  assumes "distinct xs" "distinct ys" "set xs = set ys"
  shows "sort xs = sort ys"
proof (rule sorted_distinct_set_unique)
  show "sorted (sort xs)" "sorted (sort ys)" by simp_all
  show "distinct (sort xs)" "distinct (sort ys)" using assms by simp_all
  show "set (sort xs) = set (sort ys)" using assms by simp
qed

lemma categories_sorted: "sorted (categories bs) \<and> distinct (categories bs)"
  by (simp add: categories_def Array_from_def distinct_new_Set)

lemma categories_set:
  "set (categories bs) = {trim (category b) | b. b \<in> set bs \<and> trim (category b) \<noteq> []}"
  by (auto simp: categories_def Array_from_def set_new_Set Boolean_def or_else_empty)

lemma categories_refine: "categories bs = spec_categories bs"
  unfolding categories_def spec_categories_def Array_from_def
  by (rule sort_distinct_cong)
     (auto simp: distinct_new_Set set_new_Set Boolean_def or_else_empty)

lemma categories_example:
  "categories (map cat_book [''Self-help'', ''self-help '', '''', ''Fiction''])
     = map js [''Fiction'', ''Self-help'', ''self-help'']"
  by (simp add: categories_def Array_from_def new_Set_def Set_add_def Boolean_def
      or_else_def trim_def is_white_def cat_book_def js_def)

text \<open>
  C2. For every book list the derived category options are the sorted, deduplicated,
  trimmed, non-empty categories of the list, as the specification's formula computes
  them: a strictly sorted list whose elements are exactly the non-empty trimmed
  categories. The order is the code-unit order and nothing is lowercased, so that
  case-distinct values stay distinct: the categories "Self-help", "self-help ", "" and
  "Fiction" give "Fiction", "Self-help", "self-help".
\<close>

theorem C2_categories:
  "categories bs = spec_categories bs
   \<and> sorted (categories bs) \<and> distinct (categories bs)
   \<and> set (categories bs) = {trim (category b) | b. b \<in> set bs \<and> trim (category b) \<noteq> []}
   \<and> categories (map cat_book [''Self-help'', ''self-help '', '''', ''Fiction''])
       = map js [''Fiction'', ''Self-help'', ''self-help'']"
  using categories_refine categories_sorted categories_set categories_example by simp

subsection \<open>The handlers\<close>

lemma exec_done: "exec (es, None) c = effects es c"
  by (simp add: exec_def)

lemma exec_wait: "exec (es, Some k) c = (effects es c)\<lparr>pending := pending (effects es c) @ [k]\<rparr>"
  by (simp add: exec_def)

text \<open>
  C1. When the title, the author or the category of the form draft is the empty string,
  the Create operation sends no request (its effects contain no \<open>Fetch\<close>, nothing is
  left waiting, the list of sent requests is unchanged) and the error message is set to
  'Please fill title, author and category'.
\<close>

theorem C1_validation:
  assumes "title (form (store c)) = [] \<or> author (form (store c)) = [] \<or> category (form (store c)) = []"
  shows "handleSubmit (form (store c)) q k =
           ([SetError [], SetSubmitting True,
             SetError (js ''Please fill title, author and category''),
             SetSubmitting False], None)
         \<and> step Submit c =
           Some (c\<lparr>store := (store c)\<lparr>submitting := False,
                    error := js ''Please fill title, author and category''\<rparr>\<rparr>)"
  using assms by (simp add: handleSubmit_def exec_done)

lemma mount_eq:
  "mount = \<lparr>store = initial_state\<lparr>loading := True\<rparr>, pending = [AwaitList TopLevel],
             sent = [GetBooks []]\<rparr>"
  by (simp add: mount_def fetchBooks_def exec_wait initial_state_def params_of_def)

theorem C1_validation_witness:
  "(title (form (store mount)) = [] \<or> author (form (store mount)) = []
      \<or> category (form (store mount)) = [])
   \<and> step Submit mount =
       Some (mount\<lparr>store := (store mount)\<lparr>submitting := False,
                      error := js ''Please fill title, author and category''\<rparr>\<rparr>)"
proof -
  have h: "title (form (store mount)) = [] \<or> author (form (store mount)) = []
      \<or> category (form (store mount)) = []"
    by (simp add: mount_eq initial_state_def emptyForm_def)
  from C1_validation [OF h] h show ?thesis by blast
qed

text \<open>
  C9. Invoking Delete for any book and declining the confirmation does nothing: no effect
  is performed, no request is sent, and the configuration (book list, hence the book
  count, and all other session state) is unchanged.
\<close>

theorem C9_decline:
  "handleDelete False i q k = ([], None) \<and> step (Delete i False) c = Some c"
  by (simp add: handleDelete_def exec_done)


lemma effects_append: "effects (xs @ ys) c = effects ys (effects xs c)"
  by (induction xs arbitrary: c) simp_all

lemma after_fetchBooks_store:
  "error (store (effects (after_fetchBooks who) c)) = error (store c)"
  "books (store (effects (after_fetchBooks who) c)) = books (store c)"
  "loading (store (effects (after_fetchBooks who) c)) = loading (store c)"
  "form (store (effects (after_fetchBooks who) c)) = form (store c)"
  "expandedId (store (effects (after_fetchBooks who) c)) = expandedId (store c)"
  "sent (effects (after_fetchBooks who) c) = sent c"
  "pending (effects (after_fetchBooks who) c) = pending c"
  by (cases who; simp; fail)+

text \<open>
  C4. A List/Search that fails, followed from the call of \<open>fetchBooks\<close> to its end:
  its effects are the loading flag set, the list request, the error message set to the
  description of the failure (the message of the exception for a network error or an
  unreadable body, 'Failed to load books' for a non-success response) and the loading
  flag cleared; the book list is never set. In a session, a Search answered by a failure
  leaves the configuration as it was except for the request sent, the error message and
  the loading flag, which is false: the book list held before is unchanged.
\<close>

theorem C4_list_failure:
  "complete (fetchBooks q k who) [Rejects m] =
     Some ([SetLoading True, Fetch (GetBooks (params_of q k)), SetError m, SetLoading False]
           @ after_fetchBooks who)
   \<and> (\<not> res_ok res \<longrightarrow>
        complete (fetchBooks q k who) [Resolves res] =
          Some ([SetLoading True, Fetch (GetBooks (params_of q k)),
                 SetError (js ''Failed to load books''), SetLoading False]
                @ after_fetchBooks who))
   \<and> (res_ok res' \<and> res_json res' = Inl m' \<longrightarrow>
        complete (fetchBooks q k who) [Resolves res'] =
          Some ([SetLoading True, Fetch (GetBooks (params_of q k)), SetError m',
                 SetLoading False] @ after_fetchBooks who))
   \<and> run [Search, Reply (length (pending c)) (Rejects m)] c =
        Some (c\<lparr>store := (store c)\<lparr>loading := False, error := m\<rparr>,
                sent := sent c @
                  [GetBooks (params_of (query (store c)) (categoryFilter (store c)))]\<rparr>)
   \<and> (\<not> res_ok res \<longrightarrow>
        run [Search, Reply (length (pending c)) (Resolves res)] c =
          Some (c\<lparr>store := (store c)\<lparr>loading := False,
                     error := js ''Failed to load books''\<rparr>,
                  sent := sent c @
                    [GetBooks (params_of (query (store c)) (categoryFilter (store c)))]\<rparr>))
   \<and> (res_ok res' \<and> res_json res' = Inl m' \<longrightarrow>
        run [Search, Reply (length (pending c)) (Resolves res')] c =
          Some (c\<lparr>store := (store c)\<lparr>loading := False, error := m'\<rparr>,
                  sent := sent c @
                    [GetBooks (params_of (query (store c)) (categoryFilter (store c)))]\<rparr>))
   \<and> (throws (AwaitList who) r \<longrightarrow>
        (\<exists>es. complete (fetchBooks q k who) [r] = Some es
           \<and> books (store (effects es c)) = books (store c)
           \<and> loading (store (effects es c)) = False))"
proof -
  have a: "complete (fetchBooks q k who) [Rejects m] =
     Some ([SetLoading True, Fetch (GetBooks (params_of q k)), SetError m, SetLoading False]
           @ after_fetchBooks who)"
    by (simp add: fetchBooks_def fetchBooks_resume_def)
  have b: "\<not> res_ok res \<longrightarrow>
        complete (fetchBooks q k who) [Resolves res] =
          Some ([SetLoading True, Fetch (GetBooks (params_of q k)),
                 SetError (js ''Failed to load books''), SetLoading False]
                @ after_fetchBooks who)"
    by (simp add: fetchBooks_def fetchBooks_resume_def)
  have d: "res_ok res' \<and> res_json res' = Inl m' \<longrightarrow>
        complete (fetchBooks q k who) [Resolves res'] =
          Some ([SetLoading True, Fetch (GetBooks (params_of q k)), SetError m',
                 SetLoading False] @ after_fetchBooks who)"
    by (simp add: fetchBooks_def fetchBooks_resume_def)
  have e: "run [Search, Reply (length (pending c)) (Rejects m)] c =
        Some (c\<lparr>store := (store c)\<lparr>loading := False, error := m\<rparr>,
                sent := sent c @
                  [GetBooks (params_of (query (store c)) (categoryFilter (store c)))]\<rparr>)"
    by (simp add: fetchBooks_def exec_def fetchBooks_resume_def)
  have f: "\<not> res_ok res \<longrightarrow>
        run [Search, Reply (length (pending c)) (Resolves res)] c =
          Some (c\<lparr>store := (store c)\<lparr>loading := False,
                     error := js ''Failed to load books''\<rparr>,
                  sent := sent c @
                    [GetBooks (params_of (query (store c)) (categoryFilter (store c)))]\<rparr>)"
    by (simp add: fetchBooks_def exec_def fetchBooks_resume_def)
  have g: "res_ok res' \<and> res_json res' = Inl m' \<longrightarrow>
        run [Search, Reply (length (pending c)) (Resolves res')] c =
          Some (c\<lparr>store := (store c)\<lparr>loading := False, error := m'\<rparr>,
                  sent := sent c @
                    [GetBooks (params_of (query (store c)) (categoryFilter (store c)))]\<rparr>)"
    by (simp add: fetchBooks_def exec_def fetchBooks_resume_def)
  have h: "throws (AwaitList who) r \<longrightarrow>
        (\<exists>es. complete (fetchBooks q k who) [r] = Some es
           \<and> books (store (effects es c)) = books (store c)
           \<and> loading (store (effects es c)) = False)"
    by (cases r; cases who)
       (auto simp: fetchBooks_def fetchBooks_resume_def split: sum.splits)
  show ?thesis using a b d e f g h by blast
qed

theorem C4_list_failure_witness:
  "\<not> res_ok (response_of False ''server error'' [])
   \<and> res_ok bad_json \<and> res_json bad_json = Inl (js ''Unexpected end of JSON input'')
   \<and> throws (AwaitList TopLevel) (Rejects (js ''Failed to fetch''))
   \<and> books (store listed) = [dune]
   \<and> run [Search, Reply (length (pending listed)) (Rejects (js ''Failed to fetch''))] listed =
        Some (listed\<lparr>store := (store listed)\<lparr>loading := False,
                          error := js ''Failed to fetch''\<rparr>,
                sent := sent listed @
                  [GetBooks (params_of (query (store listed)) (categoryFilter (store listed)))]\<rparr>)
   \<and> run [Search, Reply (length (pending listed))
             (Resolves (response_of False ''server error'' []))] listed =
        Some (listed\<lparr>store := (store listed)\<lparr>loading := False,
                          error := js ''Failed to load books''\<rparr>,
                sent := sent listed @
                  [GetBooks (params_of (query (store listed)) (categoryFilter (store listed)))]\<rparr>)
   \<and> run [Search, Reply (length (pending listed)) (Resolves bad_json)] listed =
        Some (listed\<lparr>store := (store listed)\<lparr>loading := False,
                          error := js ''Unexpected end of JSON input''\<rparr>,
                sent := sent listed @
                  [GetBooks (params_of (query (store listed)) (categoryFilter (store listed)))]\<rparr>)
   \<and> (\<exists>es. complete (fetchBooks [] [] TopLevel) [Rejects (js ''Failed to fetch'')] = Some es
          \<and> books (store (effects es listed)) = [dune]
          \<and> loading (store (effects es listed)) = False)"
proof -
  have h1: "\<not> res_ok (response_of False ''server error'' [])"
    by (simp add: response_of_def)
  have h2: "res_ok bad_json \<and> res_json bad_json = Inl (js ''Unexpected end of JSON input'')"
    by (simp add: bad_json_def)
  have h3: "throws (AwaitList TopLevel) (Rejects (js ''Failed to fetch''))"
    by simp
  have b: "books (store listed) = [dune]"
    by (simp add: listed_def)
  from C4_list_failure [where q = "[]" and k = "[]" and who = TopLevel
      and m = "js ''Failed to fetch''" and res = "response_of False ''server error'' []"
      and res' = bad_json and m' = "js ''Unexpected end of JSON input''" and c = listed
      and r = "Rejects (js ''Failed to fetch'')"] h1 h2 h3 b
  show ?thesis by metis
qed

lemma or_else_cases: "or_else a b = (if a = [] then b else a)"
  by (simp add: or_else_def)

text \<open>
  C5. When the create request of a valid draft is answered with a non-success status,
  the error message is the response body text when that text is not empty and
  'Failed to add book' when it is empty; the whole operation never sets the form draft,
  which is therefore retained. The body 'title required' is shown as it is.
\<close>

theorem C5_create_refused:
  assumes "title f \<noteq> []" and "author f \<noteq> []" and "category f \<noteq> []"
    and "\<not> res_ok res" and "res_text res = Inr body"
  shows "complete (handleSubmit f q k) (Resolves res # rs) =
           Some [SetError [], SetSubmitting True, Fetch (PostBook f),
                 SetError (if body = [] then js ''Failed to add book'' else body),
                 SetSubmitting False]
         \<and> exec (resume (AwaitCreate q k) (Resolves res)) c =
             c\<lparr>store := (store c)\<lparr>submitting := False,
                  error := (if body = [] then js ''Failed to add book'' else body)\<rparr>\<rparr>"
  using assms
  by (simp add: handleSubmit_def handleSubmit_resume_def exec_done or_else_cases)

theorem C5_create_refused_witness:
  "title dune_form \<noteq> [] \<and> author dune_form \<noteq> [] \<and> category dune_form \<noteq> []
   \<and> \<not> res_ok (response_of False ''title required'' [])
   \<and> res_text (response_of False ''title required'' []) = Inr (js ''title required'')
   \<and> js ''title required'' \<noteq> []
   \<and> exec (resume (AwaitCreate [] []) (Resolves (response_of False ''title required'' [])))
        (listed\<lparr>store := (store listed)\<lparr>form := dune_form, submitting := True\<rparr>\<rparr>) =
      listed\<lparr>store := (store listed)\<lparr>form := dune_form, submitting := False,
                  error := js ''title required''\<rparr>\<rparr>"
proof -
  have h: "title dune_form \<noteq> []" "author dune_form \<noteq> []" "category dune_form \<noteq> []"
    by (simp_all add: dune_form_def js_def)
  have r: "\<not> res_ok (response_of False ''title required'' [])"
    "res_text (response_of False ''title required'' []) = Inr (js ''title required'')"
    by (simp_all add: response_of_def)
  have n: "js ''title required'' \<noteq> []"
    by (simp add: js_def)
  from C5_create_refused [OF h r, of "[]" "[]" "[]"
      "listed\<lparr>store := (store listed)\<lparr>form := dune_form, submitting := True\<rparr>\<rparr>"] h r n
  show ?thesis by simp
qed

text \<open>
  C10. Every invocation of Create starts by clearing the error message and setting the
  submitting flag, whatever the draft (so also when validation then fails), and on every
  path on which it completes (validation failure, failure of the request, success
  followed by the list fetch) its last effect sets the submitting flag to false.
\<close>

theorem C10_submitting_flag:
  "\<exists>es. complete (handleSubmit f q k) [r1, r2] = Some es
     \<and> take 2 es = [SetError [], SetSubmitting True]
     \<and> submitting (store (effects (take 2 es) c)) = True
     \<and> error (store (effects (take 2 es) c)) = []
     \<and> last es = SetSubmitting False
     \<and> submitting (store (effects es c)) = False"
proof (cases "title f = [] \<or> author f = [] \<or> category f = []")
  case True
  then show ?thesis by (simp add: handleSubmit_def)
next
  case valid: False
  show ?thesis
  proof (cases "throws (AwaitCreate q k) r1")
    case True
    then show ?thesis using valid
      by (cases r1)
         (auto simp: handleSubmit_def handleSubmit_resume_def split: sum.splits)
  next
    case False
    then obtain res where r1: "r1 = Resolves res" "res_ok res"
      by (cases r1) auto
    have "\<exists>es'. fst (fetchBooks_resume InSubmit r2) = es' @ [SetSubmitting False]
            \<and> snd (fetchBooks_resume InSubmit r2) = None"
      by (simp add: fetchBooks_resume_def)
    then obtain es' where es': "fetchBooks_resume InSubmit r2 = (es' @ [SetSubmitting False], None)"
      by (metis prod.collapse)
    show ?thesis using valid r1 es'
      by (simp add: handleSubmit_def handleSubmit_resume_def fetchBooks_def effects_append)
  qed
qed

lemma error_effects:
  "\<forall>m. SetError m \<notin> set es \<Longrightarrow> error (store (effects es c)) = error (store c)"
proof (induction es arbitrary: c)
  case Nil
  show ?case by simp
next
  case (Cons e es)
  from Cons.prems have "error (store (perform e c)) = error (store c)"
    by (cases e) auto
  moreover have "error (store (effects es (perform e c))) = error (store (perform e c))"
    using Cons.prems by (intro Cons.IH) auto
  ultimately show ?case by simp
qed

lemma error_suspend: "error (store (suspend k c)) = error (store c)"
  by (cases k) simp_all

lemma error_exec:
  "\<forall>m. SetError m \<notin> set (fst oc) \<Longrightarrow> error (store (exec oc c)) = error (store c)"
  by (simp add: exec_def error_suspend error_effects)

lemma no_SetError_edit: "\<forall>m. SetError m \<notin> set (edit_effects st e)"
  by (cases e) simp_all

lemma no_SetError_fetchBooks: "\<forall>m. SetError m \<notin> set (fst (fetchBooks q k who))"
  by (simp add: fetchBooks_def)

lemma no_SetError_handleDelete: "\<forall>m. SetError m \<notin> set (fst (handleDelete b i q k))"
  by (simp add: handleDelete_def)

lemma no_SetError_after: "SetError m \<notin> set (after_fetchBooks who)"
  by (cases who) simp_all

lemma no_SetError_resume:
  assumes "\<not> throws k r"
  shows "\<forall>m. SetError m \<notin> set (fst (resume k r))"
proof (cases r)
  case (Rejects x)
  with assms show ?thesis by simp
next
  case (Resolves res)
  with assms show ?thesis
    by (cases k)
       (auto simp: fetchBooks_resume_def handleSubmit_resume_def handleDelete_resume_def
          fetchBooks_def no_SetError_after split: sum.splits)
qed

lemma error_resume:
  "\<not> throws k r \<Longrightarrow> error (store (exec (resume k r) c)) = error (store c)"
  by (rule error_exec) (rule no_SetError_resume)

lemma error_step:
  assumes "step e c = Some c'" and "error (store c') \<noteq> error (store c)"
  shows "e = Submit \<or> (\<exists>i r. e = Reply i r \<and> i < length (pending c) \<and> throws (pending c ! i) r)"
proof (cases e)
  case (Edit ed)
  with assms show ?thesis by (auto simp: error_exec no_SetError_edit)
next
  case Search
  with assms show ?thesis by (auto simp: error_exec no_SetError_fetchBooks)
next
  case Submit
  then show ?thesis by simp
next
  case (Delete i b)
  with assms show ?thesis by (auto simp: error_exec no_SetError_handleDelete)
next
  case (Reply i r)
  show ?thesis
  proof (cases "i < length (pending c) \<and> throws (pending c ! i) r")
    case True
    with Reply show ?thesis by simp
  next
    case False
    with Reply assms(1) have i: "i < length (pending c)" and nt: "\<not> throws (pending c ! i) r"
      by (auto split: if_splits)
    from Reply assms(1) i
    have "c' = exec (resume (pending c ! i) r)
                 (c\<lparr>pending := take i (pending c) @ drop (Suc i) (pending c)\<rparr>)"
      by simp
    with nt have "error (store c') = error (store c)"
      by (simp add: error_resume)
    with assms(2) show ?thesis by simp
  qed
qed

text \<open>
  C7. A successful List/Search does not clear the error message: the error message of
  any state (an empty one or not) is the same after the call of \<open>fetchBooks\<close> and after
  its successful answer. An event changes the error message only when it is a Create
  attempt (which starts by clearing it) or the answer on which a waiting handler throws.
\<close>

theorem C7_error_persists:
  "(res_ok res \<and> res_json res = Inr data \<longrightarrow>
      complete (fetchBooks q k who) [Resolves res] =
        Some ([SetLoading True, Fetch (GetBooks (params_of q k)), SetBooks data,
               SetLoading False] @ after_fetchBooks who)
      \<and> error (store (exec (fetchBooks q k who) c)) = error (store c)
      \<and> error (store (exec (resume (AwaitList who) (Resolves res)) c)) = error (store c))
   \<and> (step e c = Some c' \<and> error (store c') \<noteq> error (store c) \<longrightarrow>
        e = Submit
        \<or> (\<exists>i r. e = Reply i r \<and> i < length (pending c) \<and> throws (pending c ! i) r))
   \<and> hd (fst (handleSubmit f q k)) = SetError []"
proof -
  have a: "res_ok res \<and> res_json res = Inr data \<longrightarrow>
      complete (fetchBooks q k who) [Resolves res] =
        Some ([SetLoading True, Fetch (GetBooks (params_of q k)), SetBooks data,
               SetLoading False] @ after_fetchBooks who)"
    by (simp add: fetchBooks_def fetchBooks_resume_def)
  have b: "error (store (exec (fetchBooks q k who) c)) = error (store c)"
    by (simp add: error_exec no_SetError_fetchBooks)
  have d: "res_ok res \<and> res_json res = Inr data \<longrightarrow>
      error (store (exec (resume (AwaitList who) (Resolves res)) c)) = error (store c)"
    by (intro impI error_resume) simp
  have e: "hd (fst (handleSubmit f q k)) = SetError []"
    by (simp add: handleSubmit_def)
  show ?thesis using a b d e error_step [of e c c'] by blast
qed

theorem C7_error_persists_witness:
  "res_ok (response_of True [] [dune]) \<and> res_json (response_of True [] [dune]) = Inr [dune]
   \<and> error (store listed) = js ''Delete failed''
   \<and> error (store (exec (fetchBooks [] [] TopLevel) listed)) = js ''Delete failed''
   \<and> error (store (exec (resume (AwaitList TopLevel) (Resolves (response_of True [] [dune])))
        listed)) = js ''Delete failed''
   \<and> step Submit listed =
        Some (listed\<lparr>store := (store listed)\<lparr>error := js ''Please fill title, author and category''\<rparr>\<rparr>)
   \<and> error (store (listed\<lparr>store := (store listed)\<lparr>error := js ''Please fill title, author and category''\<rparr>\<rparr>))
        \<noteq> error (store listed)"
proof -
  have h: "res_ok (response_of True [] [dune]) \<and> res_json (response_of True [] [dune]) = Inr [dune]"
    by (simp add: response_of_def)
  have l: "error (store listed) = js ''Delete failed''"
    by (simp add: listed_def)
  have s: "step Submit listed =
        Some (listed\<lparr>store := (store listed)\<lparr>error := js ''Please fill title, author and category''\<rparr>\<rparr>)"
    by (simp add: listed_def initial_state_def emptyForm_def handleSubmit_def exec_done)
  have n: "error (store (listed\<lparr>store := (store listed)\<lparr>error := js ''Please fill title, author and category''\<rparr>\<rparr>))
        \<noteq> error (store listed)"
    by (simp add: listed_def js_def)
  from C7_error_persists [of "response_of True [] [dune]" "[dune]" "[]" "[]" TopLevel listed
      Submit "listed\<lparr>store := (store listed)\<lparr>error := js ''Please fill title, author and category''\<rparr>\<rparr>"]
    h l s n
  show ?thesis by simp
qed

subsection \<open>Sessions\<close>









text \<open>
  C6 as stated fails: in the session \<open>delete_rejected_events\<close> the confirmed delete
  request fails, the error message is 'Delete failed', and no List/Search follows the
  delete request: the delete request is the last one sent and no handler is waiting.
\<close>

theorem C6_counterexample:
  "run delete_rejected_events mount = Some delete_rejected_result
   \<and> error (store delete_rejected_result) = js ''Delete failed''
   \<and> sent delete_rejected_result = [GetBooks [], DeleteBook (IdNum 1)]
   \<and> pending delete_rejected_result = []"
  by (simp add: delete_rejected_events_def delete_rejected_result_def mount_eq
      initial_state_def response_of_def exec_def fetchBooks_resume_def
      handleDelete_def handleDelete_resume_def)

text \<open>
  The other failure of a delete, the backend's error status, is not looked at by
  \<open>handleDelete\<close> (no test of \<^verbatim>\<open>res.ok\<close>, unlike lines 32 and 61): the list is
  fetched again and no error message is set.
\<close>

lemma delete_refused_session:
  "run delete_refused_events mount = Some delete_refused_result
   \<and> error (store delete_refused_result) = []"
  by (simp add: delete_refused_events_def delete_refused_result_def mount_eq
      initial_state_def response_of_def exec_def fetchBooks_def fetchBooks_resume_def
      handleDelete_def handleDelete_resume_def params_of_def)

text \<open>
  C6, amended. A confirmed Delete sends the delete request. When that request fails in
  transit (\<^verbatim>\<open>fetch\<close> rejects), the error message is set to 'Delete failed' and the
  operation ends there, with no List/Search. When the request is answered, whatever the
  status of the answer, the List/Search operation is run after it, with the query and
  category filter captured when Delete was invoked.
\<close>

theorem C6_delete_outcomes:
  "handleDelete True i q k = ([Fetch (DeleteBook i)], Some (AwaitDelete q k))
   \<and> complete (handleDelete True i q k) (Rejects m # rs) =
       Some [Fetch (DeleteBook i), SetError (js ''Delete failed'')]
   \<and> exec (resume (AwaitDelete q k) (Rejects m)) c =
       c\<lparr>store := (store c)\<lparr>error := js ''Delete failed''\<rparr>\<rparr>
   \<and> fst (resume (AwaitDelete q k) (Resolves res)) =
       [SetLoading True, Fetch (GetBooks (params_of q k))]
   \<and> snd (resume (AwaitDelete q k) (Resolves res)) = Some (AwaitList InDelete)
   \<and> sent (exec (resume (AwaitDelete q k) (Resolves res)) c) =
       sent c @ [GetBooks (params_of q k)]
   \<and> pending (exec (resume (AwaitDelete q k) (Resolves res)) c) =
       pending c @ [AwaitList InDelete]"
  by (simp add: handleDelete_def handleDelete_resume_def fetchBooks_def exec_def)

subsection \<open>The expanded entry\<close>

lemma books_effects:
  assumes "\<forall>bs. SetBooks bs \<in> set es \<longrightarrow> distinct (map book_id bs)"
    and "distinct (map book_id (books (store c)))"
  shows "distinct (map book_id (books (store (effects es c))))"
  using assms
proof (induction es arbitrary: c)
  case Nil
  then show ?case by simp
next
  case (Cons e es)
  from Cons.prems have "distinct (map book_id (books (store (perform e c))))"
    by (cases e) auto
  with Cons.prems(1) show ?case
    by (simp add: Cons.IH)
qed

lemma books_suspend: "books (store (suspend k c)) = books (store c)"
  by (cases k) simp_all

lemma books_exec:
  assumes "\<forall>bs. SetBooks bs \<in> set (fst oc) \<longrightarrow> distinct (map book_id bs)"
    and "distinct (map book_id (books (store c)))"
  shows "distinct (map book_id (books (store (exec oc c))))"
  using assms by (simp add: exec_def books_suspend books_effects)

lemma no_SetBooks_after: "SetBooks bs \<notin> set (after_fetchBooks who)"
  by (cases who) simp_all

lemma SetBooks_resume:
  assumes "unique_ids (Reply i r)"
  shows "\<forall>bs. SetBooks bs \<in> set (fst (resume k r)) \<longrightarrow> distinct (map book_id bs)"
proof (cases r)
  case (Rejects m)
  then show ?thesis
    by (cases k)
       (auto simp: fetchBooks_resume_def handleSubmit_resume_def handleDelete_resume_def
          no_SetBooks_after)
next
  case (Resolves res)
  with assms show ?thesis
    by (cases k)
       (auto simp: fetchBooks_resume_def handleSubmit_resume_def handleDelete_resume_def
          fetchBooks_def no_SetBooks_after split: sum.splits if_splits)
qed

lemma step_unique_ids:
  assumes "unique_ids e" and "step e c = Some c'"
    and "distinct (map book_id (books (store c)))"
  shows "distinct (map book_id (books (store c')))"
proof (cases e)
  case (Edit ed)
  have "\<forall>bs. SetBooks bs \<notin> set (edit_effects (store c) ed)"
    by (cases ed) simp_all
  with Edit assms(2,3) show ?thesis
    by (auto intro!: books_exec)
next
  case Search
  with assms(2,3) show ?thesis
    by (auto intro!: books_exec simp: fetchBooks_def)
next
  case Submit
  with assms(2,3) show ?thesis
    by (auto intro!: books_exec simp: handleSubmit_def split: if_splits)
next
  case (Delete i b)
  with assms(2,3) show ?thesis
    by (auto intro!: books_exec simp: handleDelete_def split: if_splits)
next
  case (Reply i r)
  with assms(2) have c': "c' = exec (resume (pending c ! i) r)
        (c\<lparr>pending := take i (pending c) @ drop (Suc i) (pending c)\<rparr>)"
    by (auto split: if_splits)
  from assms(1) Reply have "unique_ids (Reply i r)" by simp
  from SetBooks_resume [OF this] assms(3) show ?thesis
    unfolding c' by (intro books_exec) simp_all
qed

lemma run_unique_ids:
  assumes "list_all unique_ids evs" and "run evs c = Some c'"
    and "distinct (map book_id (books (store c)))"
  shows "distinct (map book_id (books (store c')))"
  using assms
proof (induction evs arbitrary: c)
  case Nil
  then show ?case by simp
next
  case (Cons e evs)
  from Cons.prems(2) obtain c1 where c1: "step e c = Some c1" "run evs c1 = Some c'"
    by (auto split: option.splits)
  from Cons.prems(1) have u: "unique_ids e" "list_all unique_ids evs" by simp_all
  from step_unique_ids [OF u(1) c1(1) Cons.prems(3)]
  have "distinct (map book_id (books (store c1)))" .
  from Cons.IH [OF u(2) c1(2) this] show ?case .
qed

lemma filter_by_key_distinct:
  "distinct (map f xs) \<Longrightarrow> length (filter (\<lambda>x. f x = v) xs) \<le> Suc 0"
proof (induction xs)
  case Nil
  show ?case by simp
next
  case (Cons x xs)
  show ?case
  proof (cases "f x = v")
    case True
    with Cons.prems have "\<forall>y\<in>set xs. f y \<noteq> v" by (force simp: image_iff)
    then have "filter (\<lambda>x. f x = v) xs = []" by (simp add: filter_empty_conv)
    with True show ?thesis by simp
  next
    case False
    with Cons show ?thesis by simp
  qed
qed

lemma expanded_entries_distinct:
  assumes "distinct (map book_id (books (store c)))"
  shows "length (expanded_entries c) \<le> 1"
proof (cases "expandedId (store c)")
  case None
  then show ?thesis by (simp add: expanded_entries_def is_expanded_def)
next
  case (Some i)
  then have "expanded_entries c = filter (\<lambda>b. book_id b = i) (books (store c))"
    by (auto simp: expanded_entries_def is_expanded_def intro: filter_cong)
  with filter_by_key_distinct [OF assms, of i] show ?thesis by simp
qed

lemma mount_books: "books (store mount) = []"
  by (simp add: mount_eq initial_state_def)

lemma step_Toggle:
  "step (Edit (Toggle i)) c =
     Some (c\<lparr>store := (store c)\<lparr>expandedId :=
               (if expandedId (store c) = Some i then None else Some i)\<rparr>\<rparr>)"
  by (simp add: exec_done)

text \<open>
  C8 as stated fails: in the session \<open>twins_events\<close> the backend answers two books
  under the identifier 1; after the Read button of one is pressed, both entries of the
  list are expanded.
\<close>

theorem C8_counterexample:
  "run twins_events mount = Some twins_result
   \<and> expanded_entries twins_result = [dune, twin]
   \<and> length (expanded_entries twins_result) = 2"
  by (simp add: twins_events_def twins_result_def mount_eq initial_state_def
      response_of_def exec_def fetchBooks_resume_def expanded_entries_def is_expanded_def
      dune_def twin_def)

text \<open>
  C8, amended. In every session state reached from the first render through events whose
  parsed answers carry pairwise different book identifiers, the books of the list have
  pairwise different identifiers and at most one entry is expanded. There, expanding
  book B while a book A with another identifier is expanded collapses A and leaves at
  most one entry expanded, and toggling the expanded book collapses it, leaving no entry
  expanded.
\<close>

theorem C8_one_expanded:
  assumes "list_all unique_ids evs" and "run evs mount = Some c"
  shows "distinct (map book_id (books (store c)))
   \<and> length (expanded_entries c) \<le> 1
   \<and> step (Edit (Toggle i)) c =
       Some (c\<lparr>store := (store c)\<lparr>expandedId :=
                 (if expandedId (store c) = Some i then None else Some i)\<rparr>\<rparr>)
   \<and> (is_expanded (store c) a \<and> book_id b \<noteq> book_id a \<longrightarrow>
        (\<exists>c'. step (Edit (Toggle (book_id b))) c = Some c'
           \<and> is_expanded (store c') b \<and> \<not> is_expanded (store c') a
           \<and> length (expanded_entries c') \<le> 1))
   \<and> (is_expanded (store c) a \<longrightarrow>
        (\<exists>c'. step (Edit (Toggle (book_id a))) c = Some c'
           \<and> expandedId (store c') = None \<and> expanded_entries c' = []))"
proof -
  have d: "distinct (map book_id (books (store c)))"
    using run_unique_ids [OF assms] by (simp add: mount_books)
  have e: "length (expanded_entries c) \<le> 1"
    using d by (rule expanded_entries_distinct)
  have t: "is_expanded (store c) a \<and> book_id b \<noteq> book_id a \<longrightarrow>
        (\<exists>c'. step (Edit (Toggle (book_id b))) c = Some c'
           \<and> is_expanded (store c') b \<and> \<not> is_expanded (store c') a
           \<and> length (expanded_entries c') \<le> 1)"
  proof
    assume ab: "is_expanded (store c) a \<and> book_id b \<noteq> book_id a"
    define c' where "c' = c\<lparr>store := (store c)\<lparr>expandedId := Some (book_id b)\<rparr>\<rparr>"
    have s: "step (Edit (Toggle (book_id b))) c = Some c'"
      using ab by (auto simp: c'_def exec_done is_expanded_def)
    have "distinct (map book_id (books (store c')))"
      using d by (simp add: c'_def)
    then have "length (expanded_entries c') \<le> 1"
      by (rule expanded_entries_distinct)
    moreover have "is_expanded (store c') b \<and> \<not> is_expanded (store c') a"
      using ab by (auto simp: c'_def is_expanded_def)
    ultimately show "\<exists>c'. step (Edit (Toggle (book_id b))) c = Some c'
           \<and> is_expanded (store c') b \<and> \<not> is_expanded (store c') a
           \<and> length (expanded_entries c') \<le> 1"
      using s by blast
  qed
  have u: "is_expanded (store c) a \<longrightarrow>
        (\<exists>c'. step (Edit (Toggle (book_id a))) c = Some c'
           \<and> expandedId (store c') = None \<and> expanded_entries c' = [])"
    by (auto simp: exec_done is_expanded_def expanded_entries_def)
  show ?thesis using d e t u step_Toggle [of i c] by blast
qed

theorem C8_one_expanded_witness:
  "list_all unique_ids pair_events
   \<and> run pair_events mount = Some pair_result
   \<and> is_expanded (store pair_result) dune
   \<and> book_id hobbit \<noteq> book_id dune
   \<and> books (store pair_result) = [dune, hobbit]
   \<and> length (expanded_entries pair_result) \<le> 1
   \<and> (\<exists>c'. step (Edit (Toggle (book_id hobbit))) pair_result = Some c'
          \<and> is_expanded (store c') hobbit \<and> \<not> is_expanded (store c') dune
          \<and> length (expanded_entries c') \<le> 1)
   \<and> (\<exists>c'. step (Edit (Toggle (book_id dune))) pair_result = Some c'
          \<and> expandedId (store c') = None \<and> expanded_entries c' = [])"
proof -
  have u: "list_all unique_ids pair_events"
    by (simp add: pair_events_def response_of_def dune_def hobbit_def)
  have r: "run pair_events mount = Some pair_result"
    by (simp add: pair_events_def pair_result_def mount_eq initial_state_def
        response_of_def exec_def fetchBooks_resume_def)
  have h: "is_expanded (store pair_result) dune" "book_id hobbit \<noteq> book_id dune"
    "books (store pair_result) = [dune, hobbit]"
    by (simp_all add: pair_result_def is_expanded_def dune_def hobbit_def)
  from C8_one_expanded [OF u r, where a = dune and b = hobbit] u r h
  show ?thesis by blast
qed

end
